theory Spec2Isabelle
  imports Main
begin

section \<open>Python values, exceptions and the built-ins the module relies on\<close>

text \<open>
  The module \<^verbatim>\<open>modules/tautulli_connector.py\<close> works on the decoded JSON that the
  monitoring API client returns. A value of that kind is \<open>None\<close>, a bool, an int, a
  string, a list or a dict with string keys. A dict is kept as an association list in
  insertion order; a lookup finds the first entry of a key. A character is a code point
  below 256. Numbers with a fractional part are not part of this value type; the
  float that a true division of two ints produces has its own type below.
\<close>

datatype pyval =
    VNone
  | VBool bool
  | VInt int
  | VStr string
  | VList "pyval list"
  | VDict "(string \<times> pyval) list"

text \<open>
  The exception classes that the code can meet. \<open>OtherError\<close> stands for every class
  that is none of the named ones (a transport error of the API client, for instance).
  All of them derive from \<^verbatim>\<open>Exception\<close>.
\<close>

datatype exc =
    KeyError
  | ValueError
  | TypeError
  | AttributeError
  | OverflowError
  | ZeroDivisionError
  | OtherError

text \<open>Truth value testing, as in \<^verbatim>\<open>if data:\<close>.\<close>

fun truthy :: "pyval \<Rightarrow> bool" where
  "truthy VNone = False"
| "truthy (VBool b) = b"
| "truthy (VInt n) = (n \<noteq> 0)"
| "truthy (VStr s) = (s \<noteq> [])"
| "truthy (VList xs) = (xs \<noteq> [])"
| "truthy (VDict kvs) = (kvs \<noteq> [])"

text \<open>\<^verbatim>\<open>d.get(key, default)\<close>: only a dict has the method.\<close>

fun py_get :: "pyval \<Rightarrow> string \<Rightarrow> pyval \<Rightarrow> exc + pyval" where
  "py_get (VDict kvs) k d = Inr (case map_of kvs k of None \<Rightarrow> d | Some v \<Rightarrow> v)"
| "py_get _ k d = Inl AttributeError"

text \<open>
  \<^verbatim>\<open>d[key]\<close> with a string key: a dict raises \<open>KeyError\<close> for a missing key; a string
  or a list wants an integer index and every other value is not subscriptable, both a
  \<open>TypeError\<close>.
\<close>

fun py_getitem :: "pyval \<Rightarrow> string \<Rightarrow> exc + pyval" where
  "py_getitem (VDict kvs) k = (case map_of kvs k of None \<Rightarrow> Inl KeyError | Some v \<Rightarrow> Inr v)"
| "py_getitem _ k = Inl TypeError"

text \<open>
  Iteration, as in \<^verbatim>\<open>for x in v\<close>: a list gives its elements, a dict its keys, a
  string its characters; nothing else is iterable.
\<close>

fun py_iter :: "pyval \<Rightarrow> exc + pyval list" where
  "py_iter (VList xs) = Inr xs"
| "py_iter (VDict kvs) = Inr (map (\<lambda>kv. VStr (fst kv)) kvs)"
| "py_iter (VStr s) = Inr (map (\<lambda>c. VStr [c]) s)"
| "py_iter _ = Inl TypeError"

subsection \<open>\<^verbatim>\<open>str()\<close> and \<^verbatim>\<open>repr()\<close>\<close>

fun nat_digits :: "nat \<Rightarrow> string" where
  "nat_digits n =
     (if n < 10 then [''0123456789'' ! n]
      else nat_digits (n div 10) @ [''0123456789'' ! (n mod 10)])"

declare nat_digits.simps [simp del]

definition int_str :: "int \<Rightarrow> string" where
  "int_str i = (if i < 0 then CHR ''-'' # nat_digits (nat (- i)) else nat_digits (nat i))"

definition hex_escape :: "char \<Rightarrow> string" where
  "hex_escape c =
     [CHR 0x5C, CHR ''x'',
      ''0123456789abcdef'' ! (of_char c div (16::nat)),
      ''0123456789abcdef'' ! (of_char c mod (16::nat))]"

text \<open>
  The characters below 256 that \<^verbatim>\<open>repr\<close> prints as they are: the printable ASCII
  range and the printable part of Latin-1 (not the C1 controls, the no-break space and
  the soft hyphen).
\<close>

definition printable :: "char \<Rightarrow> bool" where
  "printable c =
     (let n = (of_char c :: nat)
      in (32 \<le> n \<and> n < 127) \<or> (161 \<le> n \<and> n \<noteq> 173))"

definition repr_char :: "char \<Rightarrow> char \<Rightarrow> string" where
  "repr_char q c =
     (if c = q \<or> c = CHR 0x5C then [CHR 0x5C, c]
      else if c = CHR 0x09 then [CHR 0x5C, CHR ''t'']
      else if c = CHR 0x0A then [CHR 0x5C, CHR ''n'']
      else if c = CHR 0x0D then [CHR 0x5C, CHR ''r'']
      else if printable c then [c]
      else hex_escape c)"

definition repr_str :: "string \<Rightarrow> string" where
  "repr_str s =
     (let q = (if CHR 0x27 \<in> set s \<and> CHR 0x22 \<notin> set s then CHR 0x22 else CHR 0x27)
      in q # concat (map (repr_char q) s) @ [q])"

fun join :: "string \<Rightarrow> string list \<Rightarrow> string" where
  "join sep [] = []"
| "join sep [x] = x"
| "join sep (x # y # ys) = x @ sep @ join sep (y # ys)"

fun py_repr :: "pyval \<Rightarrow> string" where
  "py_repr VNone = ''None''"
| "py_repr (VBool b) = (if b then ''True'' else ''False'')"
| "py_repr (VInt i) = int_str i"
| "py_repr (VStr s) = repr_str s"
| "py_repr (VList xs) = ''['' @ join '', '' (map py_repr xs) @ '']''"
| "py_repr (VDict kvs) =
     ''{'' @ join '', '' (map (\<lambda>kv. repr_str (fst kv) @ '': '' @ py_repr (snd kv)) kvs) @ ''}''"

text \<open>\<^verbatim>\<open>str(v)\<close>: a string is itself, every other value prints as its \<^verbatim>\<open>repr\<close>.\<close>

fun py_str :: "pyval \<Rightarrow> string" where
  "py_str (VStr s) = s"
| "py_str v = py_repr v"

subsection \<open>\<^verbatim>\<open>int()\<close>\<close>

text \<open>
  \<^verbatim>\<open>int(s)\<close> of a string, base ten: white space around, an optional sign, then digits
  with single underscores allowed between two digits. Anything else is a
  \<open>ValueError\<close>. (An interpreter's limit on the number of digits is not modelled.)
\<close>

definition py_space :: "char \<Rightarrow> bool" where
  "py_space c = ((of_char c :: nat) \<in> {9, 10, 11, 12, 13, 32, 133, 160})"

definition strip :: "string \<Rightarrow> string" where
  "strip s = rev (dropWhile py_space (rev (dropWhile py_space s)))"

definition is_digit :: "char \<Rightarrow> bool" where
  "is_digit c = (48 \<le> (of_char c :: nat) \<and> (of_char c :: nat) \<le> 57)"

fun digits_ok :: "string \<Rightarrow> bool" where
  "digits_ok [] = False"
| "digits_ok [c] = is_digit c"
| "digits_ok (c # d # r) =
     (is_digit c \<and> (if d = CHR ''_'' then digits_ok r else digits_ok (d # r)))"

definition digits_value :: "string \<Rightarrow> int" where
  "digits_value ds =
     foldl (\<lambda>a c. 10 * a + (int (of_char c) - 48)) 0 (filter is_digit ds)"

definition int_of_str :: "string \<Rightarrow> exc + int" where
  "int_of_str s =
     (case strip s of
        [] \<Rightarrow> Inl ValueError
      | c # r \<Rightarrow>
          (let ds = (if c = CHR ''-'' \<or> c = CHR ''+'' then r else c # r)
           in if digits_ok ds
              then Inr (if c = CHR ''-'' then - digits_value ds else digits_value ds)
              else Inl ValueError))"

fun py_int :: "pyval \<Rightarrow> exc + int" where
  "py_int (VInt n) = Inr n"
| "py_int (VBool b) = Inr (if b then 1 else 0)"
| "py_int (VStr s) = int_of_str s"
| "py_int _ = Inl TypeError"

subsection \<open>Subtraction\<close>

text \<open>
  \<^verbatim>\<open>a - b\<close>: defined between ints, a bool counting as the int 0 or 1; with any other
  operand among these values it is a \<open>TypeError\<close>.
\<close>

fun as_int :: "pyval \<Rightarrow> int option" where
  "as_int (VInt n) = Some n"
| "as_int (VBool b) = Some (if b then 1 else 0)"
| "as_int _ = None"

definition py_sub :: "pyval \<Rightarrow> pyval \<Rightarrow> exc + pyval" where
  "py_sub a b =
     (case (as_int a, as_int b) of
        (Some m, Some n) \<Rightarrow> Inr (VInt (m - n))
      | _ \<Rightarrow> Inl TypeError)"

subsection \<open>True division of two ints, and \<^verbatim>\<open>int()\<close> of the float\<close>

text \<open>
  \<^verbatim>\<open>a / b\<close> of two ints is the double nearest to the exact quotient, ties going to the
  even mantissa. A finite double is kept as \<open>Dyadic m e\<close>, the number \<open>m * 2 ^ e\<close> with
  a mantissa of at most 53 bits and \<open>e \<ge> -1074\<close>. A quotient too large for a double is
  an \<open>OverflowError\<close>, a zero divisor a \<open>ZeroDivisionError\<close>.
\<close>

datatype pyfloat = Dyadic int int

fun bit_length :: "nat \<Rightarrow> nat" where
  "bit_length n = (if n = 0 then 0 else Suc (bit_length (n div 2)))"

declare bit_length.simps [simp del]

text \<open>The nearest integer to \<open>n / d\<close> for \<open>d > 0\<close>, a tie going to the even one.\<close>

definition round_half_even :: "int \<Rightarrow> int \<Rightarrow> int" where
  "round_half_even n d =
     (let q = n div d; r = n mod d
      in if 2 * r < d then q
         else if d < 2 * r then q + 1
         else if even q then q else q + 1)"

text \<open>For \<open>a, b > 0\<close>: the integer \<open>f\<close> with \<open>2 ^ f \<le> a / b < 2 ^ (f + 1)\<close>.\<close>

definition quotient_exponent :: "nat \<Rightarrow> nat \<Rightarrow> int" where
  "quotient_exponent a b =
     (let d = int (bit_length a) - int (bit_length b)
      in if (if 0 \<le> d then int b * 2 ^ nat d \<le> int a else int b \<le> int a * 2 ^ nat (- d))
         then d else d - 1)"

text \<open>
  Mantissa and exponent of the double nearest to \<open>a / b\<close> for \<open>a, b > 0\<close>: the exponent
  leaves 53 bits to the mantissa, and is not lower than that of the subnormal doubles.
\<close>

definition div_mantissa :: "nat \<Rightarrow> nat \<Rightarrow> int \<times> int" where
  "div_mantissa a b =
     (let e = max (quotient_exponent a b - 52) (- 1074)
      in (if 0 \<le> e then round_half_even (int a) (int b * 2 ^ nat e)
          else round_half_even (int a * 2 ^ nat (- e)) (int b), e))"

definition py_truediv :: "int \<Rightarrow> int \<Rightarrow> exc + pyfloat" where
  "py_truediv a b =
     (if b = 0 then Inl ZeroDivisionError
      else if a = 0 then Inr (Dyadic 0 0)
      else
        (case div_mantissa (nat \<bar>a\<bar>) (nat \<bar>b\<bar>) of
           (m, e) \<Rightarrow>
             if 0 \<le> e \<and> 2 ^ 1024 \<le> m * 2 ^ nat e then Inl OverflowError
             else Inr (Dyadic (if (a < 0) \<noteq> (b < 0) then - m else m) e)))"

text \<open>\<^verbatim>\<open>int(x)\<close> of a finite float drops the fractional part, towards zero.\<close>

fun int_of_float :: "pyfloat \<Rightarrow> int" where
  "int_of_float (Dyadic m e) =
     (if 0 \<le> e then m * 2 ^ nat e
      else if 0 \<le> m then m div 2 ^ nat (- e)
      else - ((- m) div 2 ^ nat (- e)))"

section \<open>The collaborators and the process-wide state\<close>

text \<open>
  The module keeps one global, \<^verbatim>\<open>session_ids\<close>, a dict from stream number to session
  id. The state of the model is that dict together with a trace of what the error path
  (\<^verbatim>\<open>_error_and_analytics\<close>) has done: an exception written to the error log, an
  event handed to the analytics collaborator. Debug and info log lines are left out.
\<close>

datatype event =
    LogError exc
  | Analytics string string

record state =
  session_ids :: "int \<rightharpoonup> string"
  trace :: "event list"

text \<open>
  What the collaborators answer while one operation runs: the three calls of the API
  client that the two operations make, each returning a value or raising, and the
  analytics call, which returns nothing or raises. The fields \<open>terminate_message\<close> and
  \<open>plex_pass\<close> are the connector's own settings.
\<close>

record connector =
  api_activity :: "exc + pyval"
  api_terminate_session :: "string \<Rightarrow> string \<Rightarrow> exc + pyval"
  api_server_status :: "exc + pyval"
  analytics_event :: "string \<Rightarrow> string \<Rightarrow> exc option"
  terminate_message :: string
  plex_pass :: bool

text \<open>
  The text templates of \<^verbatim>\<open>modules.statics\<close> and the helpers of \<^verbatim>\<open>modules.utils\<close>
  are not part of the sources at hand; the overview message takes them as parameters.
  \<open>sessions_message n\<close> is the stream-count sentence for \<open>n\<close> streams (template and
  plural together), \<open>transcodes_message n\<close> likewise for transcodes,
  \<open>bandwidth_message\<close> and \<open>lan_bandwidth_message\<close> wrap a bitrate text. \<open>bitrate v\<close>
  is the outcome of \<^verbatim>\<open>utils.human_bitrate(float(v) * 1024)\<close>: the text, or \<open>None\<close> when
  the conversion or the helper raises.
\<close>

record statics =
  sessions_message :: "int \<Rightarrow> string"
  transcodes_message :: "int \<Rightarrow> string"
  bandwidth_message :: "string \<Rightarrow> string"
  lan_bandwidth_message :: "string \<Rightarrow> string"
  bitrate :: "pyval \<Rightarrow> string option"

section \<open>Session\<close>

text \<open>A \<^verbatim>\<open>Session\<close> wraps one raw session record; the model passes the record itself.\<close>

definition session_id :: "pyval \<Rightarrow> exc + pyval" where
  "session_id data = py_getitem data ''session_id''"

definition stream_container_decision :: "pyval \<Rightarrow> exc + pyval" where
  "stream_container_decision data = py_getitem data ''stream_container_decision''"

definition is_transcoding :: "pyval \<Rightarrow> exc + bool" where
  "is_transcoding data =
     (case stream_container_decision data of
        Inl e \<Rightarrow> Inl e
      | Inr v \<Rightarrow> Inr (v = VStr ''transcode''))"

text \<open>
  The numeric properties read the field with \<^verbatim>\<open>get\<close> (outside the \<^verbatim>\<open>try\<close>) and
  coerce it with \<^verbatim>\<open>int\<close>, any exception of the coercion giving 0.
\<close>

definition duration_milliseconds :: "pyval \<Rightarrow> exc + int" where
  "duration_milliseconds data =
     (case py_get data ''duration'' (VInt 0) of
        Inl e \<Rightarrow> Inl e
      | Inr v \<Rightarrow> (case py_int v of Inl _ \<Rightarrow> Inr 0 | Inr n \<Rightarrow> Inr n))"

definition location_milliseconds :: "pyval \<Rightarrow> exc + int" where
  "location_milliseconds data =
     (case py_get data ''view_offset'' (VInt 0) of
        Inl e \<Rightarrow> Inl e
      | Inr v \<Rightarrow> (case py_int v of Inl _ \<Rightarrow> Inr 0 | Inr n \<Rightarrow> Inr n))"

definition progress_percentage :: "pyval \<Rightarrow> exc + int" where
  "progress_percentage data =
     (case duration_milliseconds data of
        Inl e \<Rightarrow> Inl e
      | Inr d \<Rightarrow>
          if d = 0 then Inr 0
          else
            (case location_milliseconds data of
               Inl e \<Rightarrow> Inl e
             | Inr p \<Rightarrow>
                 (case duration_milliseconds data of
                    Inl e \<Rightarrow> Inl e
                  | Inr d' \<Rightarrow>
                      (case py_truediv p d' of
                         Inl e \<Rightarrow> Inl e
                       | Inr x \<Rightarrow> Inr (int_of_float x)))))"

section \<open>Activity\<close>

definition activity_sessions :: "pyval \<Rightarrow> exc + pyval list" where
  "activity_sessions data =
     (case py_get data ''sessions'' (VList []) of
        Inl e \<Rightarrow> Inl e
      | Inr v \<Rightarrow> py_iter v)"

definition stream_count :: "pyval \<Rightarrow> exc + int" where
  "stream_count data =
     (case py_get data ''stream_count'' (VInt 0) of
        Inl e \<Rightarrow> Inl e
      | Inr v \<Rightarrow> (case py_int v of Inl _ \<Rightarrow> Inr 0 | Inr n \<Rightarrow> Inr n))"

text \<open>The list comprehension of \<^verbatim>\<open>transcode_count\<close> stops at the first session that raises.\<close>

fun transcoding_flags :: "pyval list \<Rightarrow> exc + bool list" where
  "transcoding_flags [] = Inr []"
| "transcoding_flags (s # ss) =
     (case is_transcoding s of
        Inl e \<Rightarrow> Inl e
      | Inr b \<Rightarrow> (case transcoding_flags ss of Inl e \<Rightarrow> Inl e | Inr bs \<Rightarrow> Inr (b # bs)))"

definition transcode_count :: "pyval \<Rightarrow> exc + int" where
  "transcode_count data =
     (case activity_sessions data of
        Inl e \<Rightarrow> Inl e
      | Inr ss \<Rightarrow>
          (case transcoding_flags ss of
             Inl e \<Rightarrow> Inl e
           | Inr bs \<Rightarrow> Inr (max 0 (int (length (filter (\<lambda>b. b) bs))))))"

definition total_bandwidth :: "statics \<Rightarrow> pyval \<Rightarrow> exc + string option" where
  "total_bandwidth sx data =
     (case py_get data ''total_bandwidth'' (VInt 0) of
        Inl e \<Rightarrow> Inl e
      | Inr v \<Rightarrow> Inr (bitrate sx v))"

definition lan_bandwidth :: "statics \<Rightarrow> pyval \<Rightarrow> exc + string option" where
  "lan_bandwidth sx data =
     (case py_get data ''lan_bandwidth'' (VInt 0) of
        Inl e \<Rightarrow> Inl e
      | Inr v \<Rightarrow> Inr (bitrate sx v))"

text \<open>
  \<^verbatim>\<open>wan_bandwidth\<close> reads both fields and subtracts them before its \<^verbatim>\<open>try\<close>; only the
  conversion of the difference to a bitrate text is inside.
\<close>

definition wan_bandwidth :: "statics \<Rightarrow> pyval \<Rightarrow> exc + string option" where
  "wan_bandwidth sx data =
     (case py_get data ''total_bandwidth'' (VInt 0) of
        Inl e \<Rightarrow> Inl e
      | Inr total_v \<Rightarrow>
          (case py_get data ''lan_bandwidth'' (VInt 0) of
             Inl e \<Rightarrow> Inl e
           | Inr lan_v \<Rightarrow>
               (case py_sub total_v lan_v of
                  Inl e \<Rightarrow> Inl e
                | Inr v \<Rightarrow> Inr (bitrate sx v))))"

text \<open>A bitrate text counts in an \<^verbatim>\<open>if\<close> when it is a non-empty string.\<close>

definition shown :: "string option \<Rightarrow> bool" where
  "shown t = (case t of None \<Rightarrow> False | Some s \<Rightarrow> s \<noteq> [])"

definition streams_part :: "statics \<Rightarrow> pyval \<Rightarrow> exc + string" where
  "streams_part sx data =
     (case stream_count data of
        Inl e \<Rightarrow> Inl e
      | Inr n \<Rightarrow>
          if n > 0 then
            (case transcode_count data of
               Inl e \<Rightarrow> Inl e
             | Inr t \<Rightarrow>
                 Inr (sessions_message sx n @
                      (if t > 0 then '' ('' @ transcodes_message sx t @ '')'' else [])))
          else Inr [])"

definition bandwidth_part :: "statics \<Rightarrow> pyval \<Rightarrow> exc + string" where
  "bandwidth_part sx data =
     (case total_bandwidth sx data of
        Inl e \<Rightarrow> Inl e
      | Inr tb \<Rightarrow>
          if shown tb then
            (case lan_bandwidth sx data of
               Inl e \<Rightarrow> Inl e
             | Inr lb \<Rightarrow>
                 Inr ('' | '' @ bandwidth_message sx (the tb) @
                      (if shown lb then '' '' @ lan_bandwidth_message sx (the lb) else [])))
          else Inr [])"

definition activity_message :: "statics \<Rightarrow> pyval \<Rightarrow> exc + string" where
  "activity_message sx data =
     (case streams_part sx data of
        Inl e \<Rightarrow> Inl e
      | Inr a \<Rightarrow> (case bandwidth_part sx data of Inl e \<Rightarrow> Inl e | Inr b \<Rightarrow> Inr (a @ b)))"

section \<open>TautulliStreamInfo and TautulliDataResponse\<close>

record stream_info =
  session :: pyval
  session_number :: int

record data_response =
  overview_message :: string
  streams :: "stream_info list"
  response_plex_pass :: bool
  error :: bool

definition connection_lost :: "data_response \<times> int \<times> pyval option \<times> pyval" where
  "connection_lost =
     (\<lparr>overview_message = ''**Connection lost.**'', streams = [],
       response_plex_pass = False, error = True\<rparr>, 0, None, VBool False)"

section \<open>TautulliConnector\<close>

definition error_and_analytics ::
  "connector \<Rightarrow> exc \<Rightarrow> string \<Rightarrow> state \<Rightarrow> (exc + unit) \<times> state" where
  "error_and_analytics c err function_name st =
     (let st' = st\<lparr>trace := trace st @ [LogError err]\<rparr>
      in case analytics_event c ''Error'' function_name of
           Some e \<Rightarrow> (Inl e, st')
         | None \<Rightarrow> (Inr (), st'\<lparr>trace := trace st' @ [Analytics ''Error'' function_name]\<rparr>))"

definition is_plex_server_online :: "connector \<Rightarrow> exc + pyval" where
  "is_plex_server_online c =
     (case api_server_status c of
        Inl e \<Rightarrow> Inl e
      | Inr v \<Rightarrow> py_get v ''connected'' (VBool False))"

text \<open>
  The \<^verbatim>\<open>for\<close> loop of \<^verbatim>\<open>refresh_data\<close> over the sessions left to visit, with the
  locals \<open>count\<close> and \<open>session_details\<close>. The counter goes up and the descriptor is
  appended before the id is read. The inner handler takes a \<open>ValueError\<close> only; any
  other exception leaves the loop.
\<close>

fun index_sessions ::
  "connector \<Rightarrow> pyval list \<Rightarrow> int \<Rightarrow> stream_info list \<Rightarrow> state
     \<Rightarrow> (exc + int \<times> stream_info list) \<times> state" where
  "index_sessions c [] count details st = (Inr (count, details), st)"
| "index_sessions c (s # ss) count details st =
     (let count' = count + 1;
          details' = details @ [\<lparr>session = s, session_number = count'\<rparr>]
      in case session_id s of
           Inr v \<Rightarrow>
             index_sessions c ss count' details'
               (st\<lparr>session_ids := (session_ids st)(count' \<mapsto> py_str v)\<rparr>)
         | Inl ValueError \<Rightarrow>
             (case error_and_analytics c ValueError ''refresh_data (ValueError)'' st of
                (Inl e, st') \<Rightarrow> (Inl e, st')
              | (Inr _, st') \<Rightarrow> index_sessions c ss count' details' st')
         | Inl e \<Rightarrow> (Inl e, st))"

text \<open>The body of the outer \<^verbatim>\<open>try\<close> of \<^verbatim>\<open>refresh_data\<close>.\<close>

definition rebuild ::
  "connector \<Rightarrow> statics \<Rightarrow> pyval \<Rightarrow> state
     \<Rightarrow> (exc + data_response \<times> int \<times> pyval option \<times> pyval) \<times> state" where
  "rebuild c sx data st =
     (case activity_sessions data of
        Inl e \<Rightarrow> (Inl e, st)
      | Inr sessions \<Rightarrow>
          (case index_sessions c sessions 0 [] (st\<lparr>session_ids := Map.empty\<rparr>) of
             (Inl e, st') \<Rightarrow> (Inl e, st')
           | (Inr (count, session_details), st') \<Rightarrow>
               (case activity_message sx data of
                  Inl e \<Rightarrow> (Inl e, st')
                | Inr msg \<Rightarrow>
                    (case is_plex_server_online c of
                       Inl e \<Rightarrow> (Inl e, st')
                     | Inr online \<Rightarrow>
                         (Inr (\<lparr>overview_message = msg, streams = session_details,
                                response_plex_pass = plex_pass c, error = False\<rparr>,
                               count, Some data, online), st')))))"

definition refresh_data ::
  "connector \<Rightarrow> statics \<Rightarrow> state
     \<Rightarrow> (exc + data_response \<times> int \<times> pyval option \<times> pyval) \<times> state" where
  "refresh_data c sx st =
     (case api_activity c of
        Inl e \<Rightarrow> (Inl e, st)
      | Inr data \<Rightarrow>
          if truthy data then
            (case rebuild c sx data st of
               (Inl KeyError, st') \<Rightarrow>
                 (case error_and_analytics c KeyError ''refresh_data (KeyError)'' st' of
                    (Inl e, st'') \<Rightarrow> (Inl e, st'')
                  | (Inr _, st'') \<Rightarrow> (Inr connection_lost, st''))
             | (Inl e, st') \<Rightarrow> (Inl e, st')
             | (Inr r, st') \<Rightarrow> (Inr r, st'))
          else (Inr connection_lost, st))"

definition stop_stream ::
  "connector \<Rightarrow> string \<Rightarrow> int \<Rightarrow> state \<Rightarrow> (exc + string) \<times> state" where
  "stop_stream c emoji stream_number st =
     (case session_ids st stream_number of
        None \<Rightarrow> (Inr ''**Invalid stream number.**'', st)
      | Some sid \<Rightarrow>
          (case api_terminate_session c sid (terminate_message c) of
             Inr v \<Rightarrow>
               if truthy v then (Inr (''Stream '' @ emoji @ '' was stopped.''), st)
               else (Inr (''Stream '' @ emoji @ '' could not be stopped.''), st)
           | Inl e \<Rightarrow>
               (case error_and_analytics c e ''stop_stream'' st of
                  (Inl e', st') \<Rightarrow> (Inl e', st')
                | (Inr _, st') \<Rightarrow> (Inr ''Something went wrong.'', st'))))"

section \<open>Sample collaborators\<close>

text \<open>
  Concrete collaborators for evaluating the operations: \<open>sample_connector a t n\<close> answers
  the activity call with \<open>a\<close>, every terminate call with \<open>t\<close> and every analytics call
  with \<open>n\<close>; the server reports itself connected.
\<close>

definition sample_connector :: "exc + pyval \<Rightarrow> exc + pyval \<Rightarrow> exc option \<Rightarrow> connector" where
  "sample_connector a t n =
     \<lparr>api_activity = a,
      api_terminate_session = (\<lambda>sid msg. t),
      api_server_status = Inr (VDict [(''connected'', VBool True)]),
      analytics_event = (\<lambda>category action. n),
      terminate_message = ''Stopped by the administrator'',
      plex_pass = True\<rparr>"

definition sample_statics :: statics where
  "sample_statics =
     \<lparr>sessions_message = (\<lambda>n. int_str n @ '' streams''),
      transcodes_message = (\<lambda>n. int_str n @ '' transcodes''),
      bandwidth_message = (\<lambda>b. b),
      lan_bandwidth_message = (\<lambda>b. ''(local: '' @ b @ '')''),
      bitrate = (\<lambda>v. None)\<rparr>"

definition sample_state :: "(int \<times> string) list \<Rightarrow> state" where
  "sample_state entries = \<lparr>session_ids = map_of entries, trace = []\<rparr>"

section \<open>Terminating a stream by its number\<close>

lemma error_and_analytics_table:
  "session_ids (snd (error_and_analytics c err f st)) = session_ids st"
  by (simp add: error_and_analytics_def Let_def split: option.split)

lemma error_and_analytics_result:
  "fst (error_and_analytics c err f st) =
     (case analytics_event c ''Error'' f of None \<Rightarrow> Inr () | Some e \<Rightarrow> Inl e)"
  by (simp add: error_and_analytics_def Let_def split: option.split)

lemma stop_stream_table:
  "session_ids (snd (stop_stream c emoji n st)) = session_ids st"
proof (cases "session_ids st n")
  case None
  then show ?thesis by (simp add: stop_stream_def)
next
  case (Some sid)
  show ?thesis
  proof (cases "api_terminate_session c sid (terminate_message c)")
    case (Inr v)
    with Some show ?thesis by (simp add: stop_stream_def)
  next
    case (Inl e)
    obtain r st' where r: "error_and_analytics c e ''stop_stream'' st = (r, st')"
      by (cases "error_and_analytics c e ''stop_stream'' st")
    from error_and_analytics_table [of c e "''stop_stream''" st] r
    have "session_ids st' = session_ids st" by simp
    with Some Inl r show ?thesis
      by (cases r) (simp_all add: stop_stream_def)
  qed
qed

lemma stop_stream_rejected_iff:
  "fst (stop_stream c emoji n st) = Inr ''**Invalid stream number.**''
     \<longleftrightarrow> n \<notin> dom (session_ids st)"
proof (cases "session_ids st n")
  case None
  then show ?thesis by (simp add: stop_stream_def dom_def)
next
  case (Some sid)
  show ?thesis
  proof (cases "api_terminate_session c sid (terminate_message c)")
    case (Inr v)
    with Some show ?thesis by (simp add: stop_stream_def dom_def)
  next
    case (Inl e)
    obtain r st' where r: "error_and_analytics c e ''stop_stream'' st = (r, st')"
      by (cases "error_and_analytics c e ''stop_stream'' st")
    with Some Inl show ?thesis
      by (cases r) (simp_all add: stop_stream_def dom_def)
  qed
qed

lemma stop_stream_answered:
  assumes "session_ids st n = Some sid"
    and "api_terminate_session c sid (terminate_message c) = Inr v"
  shows "fst (stop_stream c emoji n st) =
           Inr (if truthy v then ''Stream '' @ emoji @ '' was stopped.''
                else ''Stream '' @ emoji @ '' could not be stopped.'')"
  using assms by (simp add: stop_stream_def)

lemma stop_stream_raised:
  assumes "session_ids st n = Some sid"
    and "api_terminate_session c sid (terminate_message c) = Inl e"
  shows "fst (stop_stream c emoji n st) =
           (case analytics_event c ''Error'' ''stop_stream'' of
              None \<Rightarrow> Inr ''Something went wrong.''
            | Some e' \<Rightarrow> Inl e')"
  using assms
  by (simp add: stop_stream_def error_and_analytics_def Let_def split: option.split)

text \<open>
  Claim C5, as the code has it. \<^verbatim>\<open>stop_stream\<close> answers "invalid stream number"
  exactly when the number is not a key of \<^verbatim>\<open>session_ids\<close>. For a known number it
  answers "was stopped" when the terminate call returns a truthy value, "could not be
  stopped" when it returns a falsy one, and, when the call raises, "something went
  wrong" provided that the report of that failure to the analytics collaborator returns
  normally. On every outcome, a raised exception included, \<^verbatim>\<open>session_ids\<close> is left as
  it was.
\<close>

theorem stop_stream_outcomes:
  "(fst (stop_stream c emoji n st) = Inr ''**Invalid stream number.**''
      \<longleftrightarrow> n \<notin> dom (session_ids st))
   \<and> (\<forall>sid v. session_ids st n = Some sid
          \<and> api_terminate_session c sid (terminate_message c) = Inr v
        \<longrightarrow> fst (stop_stream c emoji n st) =
              Inr (if truthy v then ''Stream '' @ emoji @ '' was stopped.''
                   else ''Stream '' @ emoji @ '' could not be stopped.''))
   \<and> (\<forall>sid e. session_ids st n = Some sid
          \<and> api_terminate_session c sid (terminate_message c) = Inl e
          \<and> analytics_event c ''Error'' ''stop_stream'' = None
        \<longrightarrow> fst (stop_stream c emoji n st) = Inr ''Something went wrong.'')
   \<and> session_ids (snd (stop_stream c emoji n st)) = session_ids st"
proof (intro conjI allI impI)
  show "fst (stop_stream c emoji n st) = Inr ''**Invalid stream number.**''
          \<longleftrightarrow> n \<notin> dom (session_ids st)"
    by (rule stop_stream_rejected_iff)
next
  fix sid v
  assume "session_ids st n = Some sid
            \<and> api_terminate_session c sid (terminate_message c) = Inr v"
  then show "fst (stop_stream c emoji n st) =
               Inr (if truthy v then ''Stream '' @ emoji @ '' was stopped.''
                    else ''Stream '' @ emoji @ '' could not be stopped.'')"
    using stop_stream_answered by blast
next
  fix sid e
  assume "session_ids st n = Some sid
            \<and> api_terminate_session c sid (terminate_message c) = Inl e
            \<and> analytics_event c ''Error'' ''stop_stream'' = None"
  then show "fst (stop_stream c emoji n st) = Inr ''Something went wrong.''"
    using stop_stream_raised [of st n sid c e emoji] by simp
next
  show "session_ids (snd (stop_stream c emoji n st)) = session_ids st"
    by (rule stop_stream_table)
qed

theorem stop_stream_outcomes_witness:
  "fst (stop_stream (sample_connector (Inr VNone) (Inl OtherError) None) ''2'' 2
          (sample_state [(1, ''abc''), (2, ''def'')])) = Inr ''Something went wrong.''
   \<and> fst (stop_stream (sample_connector (Inr VNone) (Inr (VBool False)) None) ''2'' 2
          (sample_state [(1, ''abc''), (2, ''def'')])) = Inr ''Stream 2 could not be stopped.''
   \<and> fst (stop_stream (sample_connector (Inr VNone) (Inr (VBool True)) None) ''2'' 2
          (sample_state [(1, ''abc''), (2, ''def'')])) = Inr ''Stream 2 was stopped.''
   \<and> fst (stop_stream (sample_connector (Inr VNone) (Inr (VBool True)) None) ''3'' 3
          (sample_state [(1, ''abc''), (2, ''def'')])) = Inr ''**Invalid stream number.**''"
proof (intro conjI)
  let ?st = "sample_state [(1, ''abc''), (2, ''def'')]"
  have k: "session_ids ?st 2 = Some ''def''" and u: "3 \<notin> dom (session_ids ?st)"
    by (simp_all add: sample_state_def dom_def)
  show "fst (stop_stream (sample_connector (Inr VNone) (Inl OtherError) None) ''2'' 2 ?st)
          = Inr ''Something went wrong.''"
    using stop_stream_outcomes
            [of "sample_connector (Inr VNone) (Inl OtherError) None" "''2''" 2 ?st] k
    by (simp add: sample_connector_def)
  show "fst (stop_stream (sample_connector (Inr VNone) (Inr (VBool False)) None) ''2'' 2 ?st)
          = Inr ''Stream 2 could not be stopped.''"
    using stop_stream_outcomes
            [of "sample_connector (Inr VNone) (Inr (VBool False)) None" "''2''" 2 ?st] k
    by (simp add: sample_connector_def)
  show "fst (stop_stream (sample_connector (Inr VNone) (Inr (VBool True)) None) ''2'' 2 ?st)
          = Inr ''Stream 2 was stopped.''"
    using stop_stream_outcomes
            [of "sample_connector (Inr VNone) (Inr (VBool True)) None" "''2''" 2 ?st] k
    by (simp add: sample_connector_def)
  show "fst (stop_stream (sample_connector (Inr VNone) (Inr (VBool True)) None) ''3'' 3 ?st)
          = Inr ''**Invalid stream number.**''"
    using stop_stream_outcomes
            [of "sample_connector (Inr VNone) (Inr (VBool True)) None" "''3''" 3 ?st] u
    by simp
qed

theorem stop_stream_failed_counterexample:
  "session_ids (sample_state [(1, ''abc''), (2, ''def'')]) 2 = Some ''def''
   \<and> api_terminate_session (sample_connector (Inr VNone) (Inl OtherError) (Some ValueError))
         ''def'' (terminate_message (sample_connector (Inr VNone) (Inl OtherError) (Some ValueError)))
       = Inl OtherError
   \<and> fst (stop_stream (sample_connector (Inr VNone) (Inl OtherError) (Some ValueError)) ''2'' 2
          (sample_state [(1, ''abc''), (2, ''def'')])) = Inl ValueError"
  by (simp add: stop_stream_def error_and_analytics_def Let_def sample_connector_def
      sample_state_def)

section \<open>Polling: what a poll does to the table\<close>

lemma refresh_data_falsy:
  assumes "api_activity c = Inr data" and "\<not> truthy data"
  shows "refresh_data c sx st = (Inr connection_lost, st)"
  using assms by (simp add: refresh_data_def)

lemma rebuild_state:
  "snd (rebuild c sx data st) =
     (case activity_sessions data of
        Inl e \<Rightarrow> st
      | Inr ss \<Rightarrow> snd (index_sessions c ss 0 [] (st\<lparr>session_ids := Map.empty\<rparr>)))"
  by (simp add: rebuild_def split: sum.split prod.split)

lemma refresh_data_table:
  assumes "api_activity c = Inr data" and "truthy data"
  shows "session_ids (snd (refresh_data c sx st)) = session_ids (snd (rebuild c sx data st))"
proof -
  obtain r st' where r: "rebuild c sx data st = (r, st')"
    by (cases "rebuild c sx data st")
  have "session_ids (snd (error_and_analytics c KeyError ''refresh_data (KeyError)'' st'))
          = session_ids st'"
    by (rule error_and_analytics_table)
  with assms r show ?thesis
    by (auto simp: refresh_data_def split: sum.split exc.split prod.split)
qed


text \<open>
  Claim C1, as the code has it. A poll whose payload is falsy returns the
  "connection lost" result and leaves the whole state, \<^verbatim>\<open>session_ids\<close> included, as it
  was: the table is reset only inside the branch for a truthy payload. A following
  \<^verbatim>\<open>stop_stream\<close> of number 1 therefore answers "invalid stream number" exactly when 1
  was not a key before the failed poll.
\<close>

theorem failed_poll_keeps_table:
  assumes "api_activity c = Inr data" and "\<not> truthy data"
  shows "fst (refresh_data c sx st) = Inr connection_lost
         \<and> snd (refresh_data c sx st) = st
         \<and> (fst (stop_stream c' emoji 1 (snd (refresh_data c sx st)))
               = Inr ''**Invalid stream number.**'' \<longleftrightarrow> 1 \<notin> dom (session_ids st))"
  using refresh_data_falsy [OF assms, of sx st] stop_stream_rejected_iff [of c' emoji 1 st]
  by simp

theorem failed_poll_keeps_table_witness:
  "fst (refresh_data (sample_connector (Inr (VDict [])) (Inr (VBool True)) None)
          sample_statics (sample_state [(2, ''def'')])) = Inr connection_lost
   \<and> fst (stop_stream (sample_connector (Inr (VDict [])) (Inr (VBool True)) None) ''1'' 1
          (snd (refresh_data (sample_connector (Inr (VDict [])) (Inr (VBool True)) None)
                 sample_statics (sample_state [(2, ''def'')]))))
       = Inr ''**Invalid stream number.**''"
proof -
  let ?c = "sample_connector (Inr (VDict [])) (Inr (VBool True)) None"
  have a: "api_activity ?c = Inr (VDict [])" by (simp add: sample_connector_def)
  have f: "\<not> truthy (VDict [])" by simp
  have d: "1 \<notin> dom (session_ids (sample_state [(2, ''def'')]))"
    by (simp add: sample_state_def dom_def)
  from failed_poll_keeps_table [OF a f, of sample_statics "sample_state [(2, ''def'')]" ?c "''1''"] d
  show ?thesis by blast
qed

theorem failed_poll_clears_table_counterexample:
  "session_ids (snd (refresh_data (sample_connector (Inr VNone) (Inr (VBool True)) None)
          sample_statics (sample_state [(1, ''abc'')]))) 1 = Some ''abc''
   \<and> fst (stop_stream (sample_connector (Inr VNone) (Inr (VBool True)) None) ''1'' 1
          (snd (refresh_data (sample_connector (Inr VNone) (Inr (VBool True)) None)
                 sample_statics (sample_state [(1, ''abc'')]))))
       = Inr ''Stream 1 was stopped.''"
  by (simp add: refresh_data_def stop_stream_def sample_connector_def sample_state_def)

text \<open>
  Claim C4. When the payload is a dict whose \<^verbatim>\<open>sessions\<close> entry is the list
  \<open>[A, B, C]\<close> and the id of each of the three can be read, \<^verbatim>\<open>refresh_data\<close> leaves
  \<^verbatim>\<open>session_ids\<close> as exactly \<open>{1: str(A.id), 2: str(B.id), 3: str(C.id)}\<close>, whatever the
  table held before.
\<close>

theorem three_sessions_indexed:
  assumes "api_activity c = Inr (VDict kvs)"
    and "map_of kvs ''sessions'' = Some (VList [A, B, C])"
    and "session_id A = Inr a" and "session_id B = Inr b" and "session_id C = Inr d"
  shows "session_ids (snd (refresh_data c sx st))
           = [1 \<mapsto> py_str a, 2 \<mapsto> py_str b, 3 \<mapsto> py_str d]"
proof -
  from assms(2) have t: "truthy (VDict kvs)" by (cases kvs) simp_all
  from assms(2) have s: "activity_sessions (VDict kvs) = Inr [A, B, C]"
    by (simp add: activity_sessions_def)
  have "session_ids (snd (refresh_data c sx st))
          = session_ids (snd (index_sessions c [A, B, C] 0 [] (st\<lparr>session_ids := Map.empty\<rparr>)))"
    using refresh_data_table [OF assms(1) t, of sx st] rebuild_state [of c sx "VDict kvs" st] s
    by simp
  also have "\<dots> = [1 \<mapsto> py_str a, 2 \<mapsto> py_str b, 3 \<mapsto> py_str d]"
    using assms(3-5) by (simp add: Let_def)
  finally show ?thesis .
qed

theorem three_sessions_indexed_witness:
  "session_ids (snd (refresh_data
      (sample_connector
         (Inr (VDict [(''sessions'',
                 VList [VDict [(''session_id'', VStr ''abc'')],
                        VDict [(''session_id'', VInt 42)],
                        VDict [(''session_id'', VStr ''xyz'')]])]))
         (Inr (VBool True)) None)
      sample_statics (sample_state [(1, ''old''), (4, ''older'')])))
   = [1 \<mapsto> ''abc'', 2 \<mapsto> ''42'', 3 \<mapsto> ''xyz'']"
proof -
  let ?A = "VDict [(''session_id'', VStr ''abc'')]"
  let ?B = "VDict [(''session_id'', VInt 42)]"
  let ?C = "VDict [(''session_id'', VStr ''xyz'')]"
  let ?kvs = "[(''sessions'', VList [?A, ?B, ?C])]"
  let ?c = "sample_connector (Inr (VDict ?kvs)) (Inr (VBool True)) None"
  have 1: "api_activity ?c = Inr (VDict ?kvs)" by (simp add: sample_connector_def)
  have 2: "map_of ?kvs ''sessions'' = Some (VList [?A, ?B, ?C])" by simp
  have 3: "session_id ?A = Inr (VStr ''abc'')" by (simp add: session_id_def)
  have 4: "session_id ?B = Inr (VInt 42)" by (simp add: session_id_def)
  have 5: "session_id ?C = Inr (VStr ''xyz'')" by (simp add: session_id_def)
  have 6: "py_str (VInt 42) = ''42''" by (simp add: int_str_def nat_digits.simps)
  from three_sessions_indexed [OF 1 2 3 4 5, of sample_statics
         "sample_state [(1, ''old''), (4, ''older'')]"] 6
  show ?thesis by simp
qed

lemma session_id_not_ValueError: "session_id s \<noteq> Inl ValueError"
  by (cases s) (simp_all add: session_id_def split: option.split)





section \<open>Polling: a session whose id cannot be read\<close>

lemma upto_keys_fresh: "map_of (zip [k + 1..m] xs) (k::int) = None"
proof -
  have "k \<notin> set [k + 1..m]" by simp
  then have "k \<notin> fst ` set (zip [k + 1..m] xs)"
    by (metis in_set_zipE imageE prod.collapse)
  then show ?thesis by (simp add: map_of_eq_None_iff)
qed

lemma index_sessions_abort:
  assumes "\<forall>s\<in>set pre. \<exists>v. session_id s = Inr v"
    and "session_id bad = Inl e" and "e \<noteq> ValueError"
  shows "index_sessions c (pre @ bad # post) n ds st =
           (Inl e, st\<lparr>session_ids := session_ids st ++
              map_of (zip [n + 1..n + int (length pre)]
                       (map (\<lambda>s. py_str (projr (session_id s))) pre))\<rparr>)"
  using assms(1)
proof (induction pre arbitrary: n ds st)
  case Nil
  with assms(2,3) show ?case by (cases e) (simp_all add: Let_def)
next
  case (Cons s pre)
  from Cons.prems obtain v where v: "session_id s = Inr v" by auto
  from Cons.prems have rest: "\<forall>s\<in>set pre. \<exists>v. session_id s = Inr v" by simp
  let ?ids = "map (\<lambda>s. py_str (projr (session_id s))) pre"
  have up: "[n + 1..n + int (length (s # pre))] = (n + 1) # [n + 1 + 1..n + 1 + int (length pre)]"
  proof -
    have "n + int (length (s # pre)) = n + 1 + int (length pre)" by simp
    moreover have "[n + 1..n + 1 + int (length pre)]
                     = (n + 1) # [n + 1 + 1..n + 1 + int (length pre)]"
      by (rule upto_rec1) simp
    ultimately show ?thesis by (simp only:)
  qed
  have fresh: "n + 1 \<notin> dom (map_of (zip [n + 1 + 1..n + 1 + int (length pre)] ?ids))"
    using upto_keys_fresh [of "n + 1"] by (simp add: dom_def)
  define m1 where "m1 = (session_ids st)(n + 1 \<mapsto> py_str v)"
  have "index_sessions c ((s # pre) @ bad # post) n ds st =
          index_sessions c (pre @ bad # post) (n + 1)
            (ds @ [\<lparr>session = s, session_number = n + 1\<rparr>])
            (st\<lparr>session_ids := m1\<rparr>)"
    using v by (simp add: Let_def m1_def)
  also have "\<dots> = (Inl e, st\<lparr>session_ids := m1 ++
              map_of (zip [n + 1 + 1..n + 1 + int (length pre)] ?ids)\<rparr>)"
    using Cons.IH [OF rest, of "n + 1" "ds @ [\<lparr>session = s, session_number = n + 1\<rparr>]"
                     "st\<lparr>session_ids := m1\<rparr>"]
    by simp
  also have "m1 ++ map_of (zip [n + 1 + 1..n + 1 + int (length pre)] ?ids)
            = session_ids st ++ map_of (zip [n + 1..n + int (length (s # pre))]
                       (map (\<lambda>s. py_str (projr (session_id s))) (s # pre)))"
  proof -
    let ?M = "map_of (zip [n + 1 + 1..n + 1 + int (length pre)] ?ids)"
    have a: "m1 ++ ?M = (session_ids st ++ ?M)(n + 1 \<mapsto> py_str v)"
      unfolding m1_def by (rule map_add_upd_left [OF fresh])
    have "map_of (zip [n + 1..n + int (length (s # pre))]
                       (map (\<lambda>s. py_str (projr (session_id s))) (s # pre)))
            = ?M(n + 1 \<mapsto> py_str v)"
      using v by (simp only: up) simp
    then have "session_ids st ++ map_of (zip [n + 1..n + int (length (s # pre))]
                       (map (\<lambda>s. py_str (projr (session_id s))) (s # pre)))
            = (session_ids st ++ ?M)(n + 1 \<mapsto> py_str v)"
      by (simp only: map_add_upd)
    with a show ?thesis by (simp only:)
  qed
  finally show ?case .
qed


lemma rebuild_abort:
  assumes "map_of kvs ''sessions'' = Some (VList (pre @ bad # post))"
    and "\<forall>s\<in>set pre. \<exists>v. session_id s = Inr v"
    and "session_id bad = Inl e" and "e \<noteq> ValueError"
  shows "rebuild c sx (VDict kvs) st =
           (Inl e, st\<lparr>session_ids :=
              map_of (zip [1..int (length pre)]
                       (map (\<lambda>s. py_str (projr (session_id s))) pre))\<rparr>)"
proof -
  from assms(1) have s: "activity_sessions (VDict kvs) = Inr (pre @ bad # post)"
    by (simp add: activity_sessions_def)
  show ?thesis
    using index_sessions_abort [OF assms(2-4), of c post 0 "[]" "st\<lparr>session_ids := Map.empty\<rparr>"]
    by (simp add: rebuild_def s)
qed

text \<open>
  Claim C2, as the code has it. \<^verbatim>\<open>refresh_data\<close> rebuilds the global in place: it
  rebinds \<^verbatim>\<open>session_ids\<close> to an empty dict and then stores one entry per session while
  the loop runs. When the id of a session cannot be read because its record has no
  \<^verbatim>\<open>session_id\<close> (a \<open>KeyError\<close>, which only the outer handler takes), the table holds
  exactly the entries of the sessions before the failing one, numbered from 1: a prefix
  of the aborted rebuild. The poll then ends with the "connection lost" result when the
  analytics report of the error returns normally, and with the exception of the
  analytics call when that raises.
\<close>

theorem aborted_poll_keeps_prefix:
  assumes "api_activity c = Inr (VDict kvs)"
    and "map_of kvs ''sessions'' = Some (VList (pre @ bad # post))"
    and "\<forall>s\<in>set pre. \<exists>v. session_id s = Inr v"
    and "session_id bad = Inl KeyError"
  shows "fst (refresh_data c sx st) =
           (case analytics_event c ''Error'' ''refresh_data (KeyError)'' of
              None \<Rightarrow> Inr connection_lost
            | Some e \<Rightarrow> Inl e)
         \<and> session_ids (snd (refresh_data c sx st)) =
             map_of (zip [1..int (length pre)]
                      (map (\<lambda>s. py_str (projr (session_id s))) pre))"
proof -
  from assms(2) have t: "truthy (VDict kvs)" by (cases kvs) simp_all
  have r: "rebuild c sx (VDict kvs) st =
             (Inl KeyError, st\<lparr>session_ids :=
                map_of (zip [1..int (length pre)]
                         (map (\<lambda>s. py_str (projr (session_id s))) pre))\<rparr>)"
    using rebuild_abort [OF assms(2-4)] by simp
  have "fst (refresh_data c sx st) =
           (case analytics_event c ''Error'' ''refresh_data (KeyError)'' of
              None \<Rightarrow> Inr connection_lost
            | Some e \<Rightarrow> Inl e)"
    using assms(1) t r
    by (simp add: refresh_data_def error_and_analytics_def Let_def split: option.split)
  moreover have "session_ids (snd (refresh_data c sx st)) =
             map_of (zip [1..int (length pre)]
                      (map (\<lambda>s. py_str (projr (session_id s))) pre))"
    using refresh_data_table [OF assms(1) t, of sx st] r by simp
  ultimately show ?thesis by simp
qed

theorem aborted_poll_keeps_prefix_witness:
  "fst (refresh_data
      (sample_connector
         (Inr (VDict [(''sessions'',
                 VList [VDict [(''session_id'', VStr ''abc'')],
                        VDict [(''session_id'', VStr ''def'')],
                        VDict [(''username'', VStr ''someone'')],
                        VDict [(''session_id'', VStr ''xyz'')]])]))
         (Inr (VBool True)) None)
      sample_statics (sample_state [(1, ''old''), (5, ''older'')]))
     = Inr connection_lost
   \<and> session_ids (snd (refresh_data
      (sample_connector
         (Inr (VDict [(''sessions'',
                 VList [VDict [(''session_id'', VStr ''abc'')],
                        VDict [(''session_id'', VStr ''def'')],
                        VDict [(''username'', VStr ''someone'')],
                        VDict [(''session_id'', VStr ''xyz'')]])]))
         (Inr (VBool True)) None)
      sample_statics (sample_state [(1, ''old''), (5, ''older'')])))
     = [1 \<mapsto> ''abc'', 2 \<mapsto> ''def'']"
proof -
  let ?A = "VDict [(''session_id'', VStr ''abc'')]"
  let ?B = "VDict [(''session_id'', VStr ''def'')]"
  let ?X = "VDict [(''username'', VStr ''someone'')]"
  let ?C = "VDict [(''session_id'', VStr ''xyz'')]"
  let ?kvs = "[(''sessions'', VList [?A, ?B, ?X, ?C])]"
  let ?c = "sample_connector (Inr (VDict ?kvs)) (Inr (VBool True)) None"
  have 1: "api_activity ?c = Inr (VDict ?kvs)" by (simp add: sample_connector_def)
  have 2: "map_of ?kvs ''sessions'' = Some (VList ([?A, ?B] @ ?X # [?C]))" by simp
  have 3: "\<forall>s\<in>set [?A, ?B]. \<exists>v. session_id s = Inr v" by (simp add: session_id_def)
  have 4: "session_id ?X = Inl KeyError" by (simp add: session_id_def)
  have 5: "analytics_event ?c ''Error'' ''refresh_data (KeyError)'' = None"
    by (simp add: sample_connector_def)
  have 6: "[1..int (length [?A, ?B])] = [1, 2]" by (simp add: upto.simps)
  have 7: "map_of (zip [1..int (length [?A, ?B])]
             (map (\<lambda>s. py_str (projr (session_id s))) [?A, ?B])) = [1 \<mapsto> ''abc'', 2 \<mapsto> ''def'']"
    unfolding 6 by (auto simp: session_id_def)
  from aborted_poll_keeps_prefix [OF 1 2 3 4, of sample_statics
         "sample_state [(1, ''old''), (5, ''older'')]"]
  show ?thesis unfolding 5 7 by simp
qed

theorem partial_table_counterexample:
  "fst (refresh_data
      (sample_connector
         (Inr (VDict [(''sessions'',
                 VList [VDict [(''session_id'', VStr ''abc'')], VDict []])]))
         (Inr (VBool True)) None)
      sample_statics (sample_state [(1, ''old''), (2, ''older''), (3, ''oldest'')]))
     = Inr connection_lost
   \<and> session_ids (snd (refresh_data
      (sample_connector
         (Inr (VDict [(''sessions'',
                 VList [VDict [(''session_id'', VStr ''abc'')], VDict []])]))
         (Inr (VBool True)) None)
      sample_statics (sample_state [(1, ''old''), (2, ''older''), (3, ''oldest'')])))
     = [1 \<mapsto> ''abc'']"
  by (simp add: refresh_data_def rebuild_def activity_sessions_def session_id_def Let_def
      error_and_analytics_def sample_connector_def sample_state_def)

text \<open>
  Claim C3, as the code has it. A session whose id cannot be read is not skipped.
  Reading \<^verbatim>\<open>session.id\<close> raises \<open>KeyError\<close> (no \<^verbatim>\<open>session_id\<close> in the record) or
  \<open>TypeError\<close> (the record is no dict), never the \<open>ValueError\<close> that the handler inside
  the loop takes, so the exception leaves the loop. For sessions \<open>[A, B, C]\<close> with the
  id of \<open>B\<close> unreadable the table is left as exactly \<open>{1: str(A.id)}\<close>: number 2 is not
  given to \<open>C\<close>, \<open>C\<close> is not indexed at all, and when \<^verbatim>\<open>refresh_data\<close> returns, it
  returns the "connection lost" result.
\<close>

theorem unreadable_id_ends_indexing:
  assumes "api_activity c = Inr (VDict kvs)"
    and "map_of kvs ''sessions'' = Some (VList [A, B, C])"
    and "session_id A = Inr a" and "session_id B = Inl e"
  shows "session_ids (snd (refresh_data c sx st)) = [1 \<mapsto> py_str a]
         \<and> (\<forall>r. fst (refresh_data c sx st) = Inr r \<longrightarrow> r = connection_lost)"
proof -
  from assms(2) have t: "truthy (VDict kvs)" by (cases kvs) simp_all
  from assms(4) have ne: "e \<noteq> ValueError" using session_id_not_ValueError [of B] by auto
  have 2: "map_of kvs ''sessions'' = Some (VList ([A] @ B # [C]))" using assms(2) by simp
  have 3: "\<forall>s\<in>set [A]. \<exists>v. session_id s = Inr v" using assms(3) by simp
  have up: "[1..int (length [A])] = [1]" by (simp add: upto.simps)
  have r: "rebuild c sx (VDict kvs) st = (Inl e, st\<lparr>session_ids := [1 \<mapsto> py_str a]\<rparr>)"
    using rebuild_abort [OF 2 3 assms(4) ne, of c sx st] assms(3) unfolding up by simp
  have "session_ids (snd (refresh_data c sx st)) = [1 \<mapsto> py_str a]"
    using refresh_data_table [OF assms(1) t, of sx st] r by simp
  moreover have "\<forall>r. fst (refresh_data c sx st) = Inr r \<longrightarrow> r = connection_lost"
    using assms(1) t r ne
    by (cases e)
       (auto simp: refresh_data_def error_and_analytics_def Let_def split: option.splits)
  ultimately show ?thesis by simp
qed

theorem unreadable_id_ends_indexing_witness:
  "session_ids (snd (refresh_data
      (sample_connector
         (Inr (VDict [(''sessions'',
                 VList [VDict [(''session_id'', VStr ''abc'')],
                        VStr ''not a record'',
                        VDict [(''session_id'', VStr ''xyz'')]])]))
         (Inr (VBool True)) None)
      sample_statics (sample_state [(2, ''old'')])))
     = [1 \<mapsto> ''abc'']"
proof -
  let ?A = "VDict [(''session_id'', VStr ''abc'')]"
  let ?B = "VStr ''not a record''"
  let ?C = "VDict [(''session_id'', VStr ''xyz'')]"
  let ?kvs = "[(''sessions'', VList [?A, ?B, ?C])]"
  let ?c = "sample_connector (Inr (VDict ?kvs)) (Inr (VBool True)) None"
  have 1: "api_activity ?c = Inr (VDict ?kvs)" by (simp add: sample_connector_def)
  have 2: "map_of ?kvs ''sessions'' = Some (VList [?A, ?B, ?C])" by simp
  have 3: "session_id ?A = Inr (VStr ''abc'')" by (simp add: session_id_def)
  have 4: "session_id ?B = Inl TypeError" by (simp add: session_id_def)
  from unreadable_id_ends_indexing [OF 1 2 3 4, of sample_statics "sample_state [(2, ''old'')]"]
  show ?thesis by simp
qed

theorem skipped_session_counterexample:
  "fst (refresh_data
      (sample_connector
         (Inr (VDict [(''sessions'',
                 VList [VDict [(''session_id'', VStr ''abc'')],
                        VDict [(''username'', VStr ''someone'')],
                        VDict [(''session_id'', VStr ''xyz'')]])]))
         (Inr (VBool True)) None)
      sample_statics (sample_state []))
     = Inr connection_lost
   \<and> session_ids (snd (refresh_data
      (sample_connector
         (Inr (VDict [(''sessions'',
                 VList [VDict [(''session_id'', VStr ''abc'')],
                        VDict [(''username'', VStr ''someone'')],
                        VDict [(''session_id'', VStr ''xyz'')]])]))
         (Inr (VBool True)) None)
      sample_statics (sample_state [])))
     = [1 \<mapsto> ''abc'']"
  by (simp add: refresh_data_def rebuild_def activity_sessions_def session_id_def Let_def
      error_and_analytics_def sample_connector_def sample_state_def)

section \<open>Reporting a failure to the analytics collaborator\<close>

text \<open>
  Claim C7, as the code has it. \<^verbatim>\<open>_error_and_analytics\<close> logs the error and then calls
  the analytics collaborator with no handler around the call. On the error path of
  \<^verbatim>\<open>stop_stream\<close> (the terminate call raised) and on that of \<^verbatim>\<open>refresh_data\<close> (a
  \<open>KeyError\<close> left the rebuild), the operation ends with its outcome, "something went
  wrong" or "connection lost", when the analytics call returns; when the analytics call
  raises, its exception leaves the operation instead.
\<close>

theorem analytics_unguarded:
  "(session_ids st n = Some sid
      \<and> api_terminate_session c sid (terminate_message c) = Inl e
    \<longrightarrow> fst (stop_stream c emoji n st) =
          (case analytics_event c ''Error'' ''stop_stream'' of
             None \<Rightarrow> Inr ''Something went wrong.''
           | Some e' \<Rightarrow> Inl e'))
   \<and> (api_activity c = Inr data \<and> truthy data
      \<and> fst (rebuild c sx data st) = Inl KeyError
    \<longrightarrow> fst (refresh_data c sx st) =
          (case analytics_event c ''Error'' ''refresh_data (KeyError)'' of
             None \<Rightarrow> Inr connection_lost
           | Some e' \<Rightarrow> Inl e'))"
proof (intro conjI impI)
  assume "session_ids st n = Some sid
            \<and> api_terminate_session c sid (terminate_message c) = Inl e"
  then show "fst (stop_stream c emoji n st) =
          (case analytics_event c ''Error'' ''stop_stream'' of
             None \<Rightarrow> Inr ''Something went wrong.''
           | Some e' \<Rightarrow> Inl e')"
    using stop_stream_raised [of st n sid c e emoji] by simp
next
  assume a: "api_activity c = Inr data \<and> truthy data
               \<and> fst (rebuild c sx data st) = Inl KeyError"
  obtain r st' where r: "rebuild c sx data st = (r, st')"
    by (cases "rebuild c sx data st")
  with a have "r = Inl KeyError" by simp
  with a r show "fst (refresh_data c sx st) =
          (case analytics_event c ''Error'' ''refresh_data (KeyError)'' of
             None \<Rightarrow> Inr connection_lost
           | Some e' \<Rightarrow> Inl e')"
    by (simp add: refresh_data_def error_and_analytics_def Let_def split: option.split)
qed

theorem analytics_unguarded_witness:
  "fst (stop_stream (sample_connector (Inr VNone) (Inl OtherError) None) ''1'' 1
          (sample_state [(1, ''abc'')])) = Inr ''Something went wrong.''
   \<and> fst (refresh_data (sample_connector (Inr (VDict [(''sessions'', VList [VDict []])]))
                          (Inr (VBool True)) (Some OverflowError))
          sample_statics (sample_state [])) = Inl OverflowError"
proof (intro conjI)
  let ?c = "sample_connector (Inr VNone) (Inl OtherError) None"
  let ?st = "sample_state [(1, ''abc'')]"
  have "session_ids ?st 1 = Some ''abc''
          \<and> api_terminate_session ?c ''abc'' (terminate_message ?c) = Inl OtherError"
    by (simp add: sample_state_def sample_connector_def)
  with analytics_unguarded [of ?st 1 "''abc''" ?c OtherError "''1''" VNone sample_statics]
  show "fst (stop_stream ?c ''1'' 1 ?st) = Inr ''Something went wrong.''"
    by (simp add: sample_connector_def)
next
  let ?d = "VDict [(''sessions'', VList [VDict []])]"
  let ?c = "sample_connector (Inr ?d) (Inr (VBool True)) (Some OverflowError)"
  have "api_activity ?c = Inr ?d \<and> truthy ?d
          \<and> fst (rebuild ?c sample_statics ?d (sample_state [])) = Inl KeyError"
    by (simp add: sample_connector_def rebuild_def activity_sessions_def session_id_def Let_def)
  with analytics_unguarded [of "sample_state []" 1 "''abc''" ?c OtherError "''1''" ?d sample_statics]
  show "fst (refresh_data ?c sample_statics (sample_state [])) = Inl OverflowError"
    by (simp add: sample_connector_def)
qed

theorem analytics_failure_counterexample:
  "fst (stop_stream (sample_connector (Inr VNone) (Inl OtherError) (Some OverflowError)) ''1'' 1
          (sample_state [(1, ''abc'')])) = Inl OverflowError"
  by (simp add: stop_stream_def error_and_analytics_def Let_def sample_connector_def
      sample_state_def)

section \<open>Polling: a payload without sessions\<close>

lemma activity_message_no_sessions:
  assumes "map_of kvs ''sessions'' = None"
  shows "\<exists>msg. activity_message sx (VDict kvs) = Inr msg"
proof -
  have tc: "transcode_count (VDict kvs) = Inr 0"
    using assms by (simp add: transcode_count_def activity_sessions_def)
  obtain n where n: "stream_count (VDict kvs) = Inr n"
    by (cases "stream_count (VDict kvs)") (auto simp: stream_count_def split: sum.splits)
  have "\<exists>a. streams_part sx (VDict kvs) = Inr a"
    by (simp add: streams_part_def n tc)
  moreover have "\<exists>b. bandwidth_part sx (VDict kvs) = Inr b"
    by (simp add: bandwidth_part_def total_bandwidth_def lan_bandwidth_def)
  ultimately show ?thesis by (auto simp: activity_message_def)
qed

text \<open>
  Claim C10, as the code has it. For a truthy dict payload without a \<^verbatim>\<open>sessions\<close>
  key the session list is empty and \<^verbatim>\<open>refresh_data\<close> leaves an empty table. It
  returns the success tuple, with no stream descriptors and the count 0, provided that
  the server-status query made for the last component of that tuple answers; the query
  sits inside the same \<^verbatim>\<open>try\<close>, so when it raises the poll does not end as a success.
\<close>

theorem missing_sessions_key_is_empty_poll:
  assumes "api_activity c = Inr (VDict kvs)" and "truthy (VDict kvs)"
    and "map_of kvs ''sessions'' = None"
  shows "activity_sessions (VDict kvs) = Inr []
         \<and> session_ids (snd (refresh_data c sx st)) = Map.empty
         \<and> (\<forall>online. is_plex_server_online c = Inr online \<longrightarrow>
              (\<exists>msg. fst (refresh_data c sx st) =
                 Inr (\<lparr>overview_message = msg, streams = [],
                       response_plex_pass = plex_pass c, error = False\<rparr>,
                      0, Some (VDict kvs), online)))"
proof (intro conjI allI impI)
  show s: "activity_sessions (VDict kvs) = Inr []"
    using assms(3) by (simp add: activity_sessions_def)
  show "session_ids (snd (refresh_data c sx st)) = Map.empty"
    using refresh_data_table [OF assms(1,2), of sx st] rebuild_state [of c sx "VDict kvs" st] s
    by simp
  fix online
  assume o: "is_plex_server_online c = Inr online"
  from activity_message_no_sessions [OF assms(3)]
  obtain msg where m: "activity_message sx (VDict kvs) = Inr msg" by blast
  have "fst (refresh_data c sx st) =
          Inr (\<lparr>overview_message = msg, streams = [],
                response_plex_pass = plex_pass c, error = False\<rparr>,
               0, Some (VDict kvs), online)"
    using assms(1,2) s m o by (simp add: refresh_data_def rebuild_def)
  then show "\<exists>msg. fst (refresh_data c sx st) =
                 Inr (\<lparr>overview_message = msg, streams = [],
                       response_plex_pass = plex_pass c, error = False\<rparr>,
                      0, Some (VDict kvs), online)"
    by blast
qed

theorem missing_sessions_key_is_empty_poll_witness:
  "session_ids (snd (refresh_data
      (sample_connector (Inr (VDict [(''stream_count'', VInt 0)])) (Inr (VBool True)) None)
      sample_statics (sample_state [(1, ''old'')]))) = Map.empty
   \<and> fst (refresh_data
      (sample_connector (Inr (VDict [(''stream_count'', VInt 0)])) (Inr (VBool True)) None)
      sample_statics (sample_state [(1, ''old'')]))
     = Inr (\<lparr>overview_message = [], streams = [], response_plex_pass = True, error = False\<rparr>,
            0, Some (VDict [(''stream_count'', VInt 0)]), VBool True)"
proof -
  let ?kvs = "[(''stream_count'', VInt 0)]"
  let ?c = "sample_connector (Inr (VDict ?kvs)) (Inr (VBool True)) None"
  have 1: "api_activity ?c = Inr (VDict ?kvs)" by (simp add: sample_connector_def)
  have 2: "truthy (VDict ?kvs)" by simp
  have 3: "map_of ?kvs ''sessions'' = None" by simp
  have 4: "is_plex_server_online ?c = Inr (VBool True)"
    by (simp add: is_plex_server_online_def sample_connector_def)
  have 5: "plex_pass ?c = True" by (simp add: sample_connector_def)
  have 6: "activity_message sample_statics (VDict ?kvs) = Inr []"
    by (simp add: activity_message_def streams_part_def bandwidth_part_def stream_count_def
        total_bandwidth_def shown_def sample_statics_def)
  from missing_sessions_key_is_empty_poll [OF 1 2 3, of sample_statics "sample_state [(1, ''old'')]"] 4 5
  obtain msg where t: "session_ids (snd (refresh_data ?c sample_statics (sample_state [(1, ''old'')]))) = Map.empty"
    and f: "fst (refresh_data ?c sample_statics (sample_state [(1, ''old'')])) =
       Inr (\<lparr>overview_message = msg, streams = [], response_plex_pass = True, error = False\<rparr>,
            0, Some (VDict ?kvs), VBool True)"
    by auto
  have "fst (refresh_data ?c sample_statics (sample_state [(1, ''old'')])) =
       Inr (\<lparr>overview_message = [], streams = [], response_plex_pass = True, error = False\<rparr>,
            0, Some (VDict ?kvs), VBool True)"
    using 1 6 4 by (simp add: refresh_data_def rebuild_def activity_sessions_def sample_connector_def)
  with t show ?thesis by simp
qed

theorem missing_sessions_key_status_counterexample:
  "truthy (VDict [(''stream_count'', VInt 0)])
   \<and> map_of [(''stream_count'', VInt 0)] ''sessions'' = None
   \<and> fst (refresh_data
      ((sample_connector (Inr (VDict [(''stream_count'', VInt 0)])) (Inr (VBool True)) None)
         \<lparr>api_server_status := Inl KeyError\<rparr>)
      sample_statics (sample_state [(1, ''old'')]))
     = Inr connection_lost"
  by (simp add: refresh_data_def rebuild_def activity_sessions_def activity_message_def
      streams_part_def bandwidth_part_def stream_count_def total_bandwidth_def shown_def
      is_plex_server_online_def error_and_analytics_def Let_def sample_connector_def
      sample_statics_def)

section \<open>The progress ratio of a session\<close>

lemma bit_length_bounds:
  "0 < n \<Longrightarrow> 2 ^ (bit_length n - 1) \<le> n \<and> n < 2 ^ bit_length n"
proof (induction n rule: bit_length.induct)
  case (1 n)
  show ?case
  proof (cases "n div 2 = 0")
    case True
    with "1.prems" have "n = 1" by linarith
    then show ?thesis by (simp add: bit_length.simps)
  next
    case False
    then have pos: "0 < n div 2" by simp
    from "1.IH" [OF _ pos] "1.prems"
    have ih: "2 ^ (bit_length (n div 2) - 1) \<le> n div 2" "n div 2 < 2 ^ bit_length (n div 2)"
      by simp_all
    have bl: "bit_length n = Suc (bit_length (n div 2))"
      using "1.prems" by (subst bit_length.simps) simp
    have pos_bl: "0 < bit_length (n div 2)"
      using pos by (subst bit_length.simps) simp
    then obtain k where k: "bit_length (n div 2) = Suc k" by (cases "bit_length (n div 2)") auto
    from ih k have "2 * 2 ^ k \<le> n" "n < 2 * 2 ^ Suc k" by simp_all
    with bl k show ?thesis by simp
  qed
qed

lemma bit_length_pos: "0 < n \<Longrightarrow> 0 < bit_length n"
  by (subst bit_length.simps) simp

lemma bit_length_le:
  assumes "0 < n" and "n < 2 ^ k"
  shows "bit_length n \<le> k"
proof (rule ccontr)
  assume "\<not> bit_length n \<le> k"
  then have "k \<le> bit_length n - 1" by simp
  then have "(2::nat) ^ k \<le> 2 ^ (bit_length n - 1)" by (rule power_increasing) simp
  also have "\<dots> \<le> n" using bit_length_bounds [OF assms(1)] by simp
  finally show False using assms(2) by simp
qed


lemma pow2_split: "i + j = k \<Longrightarrow> (2::int) ^ k = 2 ^ i * 2 ^ j"
  by (simp add: power_add [symmetric])

lemma quotient_exponent_small:
  assumes "0 < a" and "a < 2 ^ 53" and "0 < b" and "b < 2 ^ 53"
  shows "- 53 \<le> quotient_exponent a b \<and> quotient_exponent a b \<le> 52
         \<and> int b * 2 ^ 52 \<le> int a * 2 ^ nat (52 - quotient_exponent a b)"
proof -
  define la lb where "la = bit_length a" and "lb = bit_length b"
  define d where "d = int la - int lb"
  have la: "1 \<le> la" "la \<le> 53"
    using bit_length_pos [OF assms(1)] bit_length_le [OF assms(1,2)] by (simp_all add: la_def)
  have lb: "1 \<le> lb" "lb \<le> 53"
    using bit_length_pos [OF assms(3)] bit_length_le [OF assms(3,4)] by (simp_all add: lb_def)
  have d: "- 52 \<le> d" "d \<le> 52" using la lb by (simp_all add: d_def)
  have a_lo: "(2::int) ^ (la - 1) \<le> int a"
  proof -
    have "(2::nat) ^ (la - 1) \<le> a" using bit_length_bounds [OF assms(1)] by (simp add: la_def)
    then have "int (2 ^ (la - 1)) \<le> int a" by (simp only: of_nat_le_iff)
    then show ?thesis by simp
  qed
  have b_hi: "int b \<le> 2 ^ lb"
  proof -
    have "b < 2 ^ lb" using bit_length_bounds [OF assms(3)] by (simp add: lb_def)
    then have "int b < int (2 ^ lb)" by (simp only: of_nat_less_iff)
    then show ?thesis by simp
  qed
  let ?test = "if 0 \<le> d then int b * 2 ^ nat d \<le> int a else int b \<le> int a * 2 ^ nat (- d)"
  have f: "quotient_exponent a b = (if ?test then d else d - 1)"
    by (simp add: quotient_exponent_def Let_def d_def la_def lb_def)
  show ?thesis
  proof (cases ?test)
    case False
    then have fv: "quotient_exponent a b = d - 1" using f by simp
    have e1: "lb + 52 = (la - 1) + nat (52 - (d - 1))" using la lb by (simp add: d_def)
    have "int b * 2 ^ 52 \<le> 2 ^ lb * 2 ^ 52" using b_hi by (rule mult_right_mono) simp
    also have "\<dots> = (2::int) ^ (la - 1) * 2 ^ nat (52 - (d - 1))"
      using pow2_split [OF e1 [symmetric]] by (simp add: power_add)
    also have "\<dots> \<le> int a * 2 ^ nat (52 - (d - 1))" using a_lo by (rule mult_right_mono) simp
    finally show ?thesis using fv d by simp
  next
    case True
    then have fv: "quotient_exponent a b = d" using f by simp
    show ?thesis
    proof (cases "0 \<le> d")
      case nonneg: True
      with True have t: "int b * 2 ^ nat d \<le> int a" by simp
      have e: "nat d + nat (52 - d) = 52" using nonneg d by simp
      have "int b * 2 ^ 52 = (int b * 2 ^ nat d) * 2 ^ nat (52 - d)"
        using pow2_split [OF e] by simp
      also have "\<dots> \<le> int a * 2 ^ nat (52 - d)" using t by (rule mult_right_mono) simp
      finally show ?thesis using fv d by simp
    next
      case neg: False
      with True have t: "int b \<le> int a * 2 ^ nat (- d)" by simp
      have e: "nat (- d) + 52 = nat (52 - d)" using neg by simp
      have "int b * 2 ^ 52 \<le> (int a * 2 ^ nat (- d)) * 2 ^ 52" using t by (rule mult_right_mono) simp
      also have "\<dots> = int a * 2 ^ nat (52 - d)"
        using pow2_split [OF e] by simp
      finally show ?thesis using fv d by simp
    qed
  qed
qed


lemma round_half_even_bounds:
  assumes "0 < d"
  shows "n div d \<le> round_half_even n d \<and> round_half_even n d \<le> n div d + 1
         \<and> (round_half_even n d = n div d + 1 \<longrightarrow> d \<le> 2 * (n mod d))"
  by (auto simp: round_half_even_def Let_def)

lemma trunc_rounded_quotient:
  fixes A B P :: int
  assumes "0 < A" and "A < 2 ^ 53" and "0 < B" and "0 < P" and "B * 2 ^ 52 \<le> A * P"
  shows "round_half_even (A * P) B div P = A div B"
proof -
  define q where "q = A div B"
  define N where "N = A * P"
  define m where "m = round_half_even N B"
  have A_lo: "q * B \<le> A"
  proof -
    have "A = q * B + A mod B" by (simp add: q_def)
    moreover have "0 \<le> A mod B" using assms(3) by simp
    ultimately show ?thesis by linarith
  qed
  have A_hi: "A + 1 \<le> (q + 1) * B"
  proof -
    have "A = q * B + A mod B" by (simp add: q_def)
    moreover have "A mod B < B" using assms(3) by simp
    ultimately show ?thesis by (simp add: algebra_simps)
  qed
  have BP: "B < 2 * P"
  proof -
    have "A * P \<le> (2 ^ 53 - 1) * P" using assms(2,4) by (intro mult_right_mono) simp_all
    with assms(5) have "B * 2 ^ 52 \<le> (2 ^ 53 - 1) * P" by linarith
    with assms(4) show ?thesis by simp
  qed
  have N_lo: "q * P * B \<le> N"
  proof -
    have "q * B * P \<le> A * P" using A_lo assms(4) by (intro mult_right_mono) simp_all
    then show ?thesis by (simp add: N_def mult.commute mult.left_commute)
  qed
  have N_hi: "N + P \<le> (q + 1) * P * B"
  proof -
    have "(A + 1) * P \<le> (q + 1) * B * P" using A_hi assms(4) by (intro mult_right_mono) simp_all
    then show ?thesis by (simp add: N_def algebra_simps)
  qed
  have d_lo: "q * P \<le> N div B"
  proof -
    have "(q * P * B) div B \<le> N div B" using N_lo assms(3) by (rule zdiv_mono1)
    with assms(3) show ?thesis by simp
  qed
  have N_eq: "N = (N div B) * B + N mod B" by simp
  have d_hi: "N div B < (q + 1) * P"
  proof -
    have "0 \<le> N mod B" using assms(3) by simp
    with N_eq have "(N div B) * B \<le> N" by linarith
    with N_hi assms(4) have "(N div B) * B < ((q + 1) * P) * B" by linarith
    with assms(3) show ?thesis by (simp only: mult_less_cancel_right_pos)
  qed
  from round_half_even_bounds [OF assms(3), of N]
  have m1: "N div B \<le> m" and m2: "m \<le> N div B + 1"
    and m3: "m = N div B + 1 \<Longrightarrow> B \<le> 2 * (N mod B)"
    by (simp_all add: m_def)
  have m_hi: "m < (q + 1) * P"
  proof (rule ccontr)
    assume "\<not> m < (q + 1) * P"
    with d_hi m2 have top: "N div B + 1 = (q + 1) * P" and mm: "m = N div B + 1" by linarith+
    from m3 [OF mm] have half: "B \<le> 2 * (N mod B)" .
    have "(q + 1) * P * B = (N div B + 1) * B" by (simp only: top)
    then have "(q + 1) * P * B = (N div B) * B + B" by (simp only: distrib_right mult_1)
    with N_eq have "(q + 1) * P * B - N = B - N mod B" by linarith
    with N_hi have "P \<le> B - N mod B" by linarith
    with half BP show False by linarith
  qed
  have "m div P = q"
  proof -
    have r: "0 \<le> m - q * P" "m - q * P < P" using d_lo m1 m_hi by (simp_all add: algebra_simps)
    have "m div P = ((m - q * P) + q * P) div P" by simp
    also have "\<dots> = q + (m - q * P) div P" using assms(4) by (subst div_mult_self1) simp_all
    also have "(m - q * P) div P = 0" using r by (rule div_pos_pos_trivial)
    finally show ?thesis by simp
  qed
  then show ?thesis by (simp add: m_def N_def q_def)
qed


lemma div_mantissa_small:
  assumes "0 < a" and "a < 2 ^ 53" and "0 < b" and "b < 2 ^ 53"
  obtains m e where "div_mantissa a b = (m, e)" and "- 105 \<le> e" and "e \<le> 0"
    and "0 \<le> m" and "0 \<le> e \<longrightarrow> m < 2 ^ 1024"
    and "m div 2 ^ nat (- e) = int a div int b"
proof -
  define f where "f = quotient_exponent a b"
  from quotient_exponent_small [OF assms]
  have f: "- 53 \<le> f" "f \<le> 52" and lo: "int b * 2 ^ 52 \<le> int a * 2 ^ nat (52 - f)"
    by (simp_all add: f_def)
  define e where "e = f - 52"
  define m where "m = round_half_even (int a * 2 ^ nat (- e)) (int b)"
  have e: "- 105 \<le> e" "e \<le> 0" using f by (simp_all add: e_def)
  have emax: "max (f - 52) (- 1074) = e" using f by (simp add: e_def)
  have branch: "(if 0 \<le> e then round_half_even (int a) (int b * 2 ^ nat e)
                 else round_half_even (int a * 2 ^ nat (- e)) (int b)) = m"
    using e by (cases "e = 0") (simp_all add: m_def)
  have dm: "div_mantissa a b = (m, e)"
    unfolding div_mantissa_def Let_def f_def [symmetric] emax branch ..
  have A: "0 < int a" "int a < 2 ^ 53" and B: "0 < int b"
    using assms by simp_all
  have P: "(0::int) < 2 ^ nat (- e)" by simp
  have lo': "int b * 2 ^ 52 \<le> int a * 2 ^ nat (- e)" using lo by (simp add: e_def)
  have tr: "m div 2 ^ nat (- e) = int a div int b"
    unfolding m_def by (rule trunc_rounded_quotient [OF A B P lo'])
  have m0: "0 \<le> m"
  proof -
    have "0 \<le> (int a * 2 ^ nat (- e)) div int b" using B by (simp add: pos_imp_zdiv_nonneg_iff)
    with round_half_even_bounds [OF B, of "int a * 2 ^ nat (- e)"] show ?thesis
      by (simp add: m_def)
  qed
  have m1: "0 \<le> e \<longrightarrow> m < 2 ^ 1024"
  proof
    assume "0 \<le> e"
    with e have z: "e = 0" by simp
    have "int a div int b \<le> int a div 1" using A B by (intro zdiv_mono2) simp_all
    with tr z A have "m < 2 ^ 53" by simp
    also have "(2::int) ^ 53 < 2 ^ 1024" by simp
    finally show "m < 2 ^ 1024" .
  qed
  from dm e m0 m1 tr show ?thesis by (rule that)
qed


lemma py_truediv_small:
  assumes "\<bar>a\<bar> < 2 ^ 53" and "b \<noteq> 0" and "\<bar>b\<bar> < 2 ^ 53"
  shows "\<exists>x. py_truediv a b = Inr x
           \<and> int_of_float x = (if (a < 0) \<noteq> (b < 0) then - (\<bar>a\<bar> div \<bar>b\<bar>) else \<bar>a\<bar> div \<bar>b\<bar>)"
proof (cases "a = 0")
  case True
  with assms(2) show ?thesis by (simp add: py_truediv_def)
next
  case False
  have na: "0 < nat \<bar>a\<bar>" "nat \<bar>a\<bar> < 2 ^ 53" using False assms(1) by (simp_all add: nat_less_iff)
  have nb: "0 < nat \<bar>b\<bar>" "nat \<bar>b\<bar> < 2 ^ 53" using assms(2,3) by (simp_all add: nat_less_iff)
  from div_mantissa_small [OF na nb]
  obtain m e where dm: "div_mantissa (nat \<bar>a\<bar>) (nat \<bar>b\<bar>) = (m, e)"
    and e: "e \<le> 0" and m0: "0 \<le> m" and ov: "0 \<le> e \<longrightarrow> m < 2 ^ 1024"
    and tr: "m div 2 ^ nat (- e) = int (nat \<bar>a\<bar>) div int (nat \<bar>b\<bar>)"
    by blast
  have tr': "m div 2 ^ nat (- e) = \<bar>a\<bar> div \<bar>b\<bar>" using tr by simp
  have no_ov: "\<not> (0 \<le> e \<and> 2 ^ 1024 \<le> m * 2 ^ nat e)"
  proof
    assume h: "0 \<le> e \<and> 2 ^ 1024 \<le> m * 2 ^ nat e"
    with e have "e = 0" by simp
    with h ov show False by simp
  qed
  let ?s = "if (a < 0) \<noteq> (b < 0) then - m else m"
  have pd: "py_truediv a b = Inr (Dyadic ?s e)"
    using False assms(2) dm no_ov by (simp add: py_truediv_def)
  have "int_of_float (Dyadic ?s e)
          = (if (a < 0) \<noteq> (b < 0) then - (\<bar>a\<bar> div \<bar>b\<bar>) else \<bar>a\<bar> div \<bar>b\<bar>)"
  proof (cases "e = 0")
    case True
    with tr' show ?thesis by simp
  next
    case False
    with e have en: "e < 0" by simp
    show ?thesis
    proof (cases "m = 0")
      case True
      with tr' en show ?thesis by simp
    next
      case False
      with m0 have "0 < m" by simp
      with tr' en show ?thesis by simp
    qed
  qed
  with pd show ?thesis by simp
qed

text \<open>
  Claim C8, as the code has it. For a session record that is a dict, with \<open>d\<close> and \<open>p\<close>
  the coerced duration and position: \<^verbatim>\<open>progress_percentage\<close> is 0 when \<open>d\<close> is 0; it
  is the plain integer quotient \<open>p div d\<close>, the ratio itself and not a percentage, when
  \<open>0 < d\<close>, \<open>0 \<le> p\<close> and both are below \<open>2 ^ 53\<close>; and in general, for magnitudes below
  \<open>2 ^ 53\<close> and \<open>d\<close> not 0, it is the quotient cut towards zero. The coercion does not
  make the two values non-negative, and \<^verbatim>\<open>int\<close> of the float quotient cuts towards
  zero where \<open>floor\<close> would round down.
\<close>

theorem progress_percentage_value:
  assumes "duration_milliseconds data = Inr d" and "location_milliseconds data = Inr p"
  shows "(d = 0 \<longrightarrow> progress_percentage data = Inr 0)
         \<and> (0 < d \<and> d < 2 ^ 53 \<and> 0 \<le> p \<and> p < 2 ^ 53
              \<longrightarrow> progress_percentage data = Inr (p div d))
         \<and> (d \<noteq> 0 \<and> \<bar>d\<bar> < 2 ^ 53 \<and> \<bar>p\<bar> < 2 ^ 53
              \<longrightarrow> progress_percentage data =
                    Inr (if (p < 0) \<noteq> (d < 0) then - (\<bar>p\<bar> div \<bar>d\<bar>) else \<bar>p\<bar> div \<bar>d\<bar>))"
proof -
  have general: "progress_percentage data =
                    Inr (if (p < 0) \<noteq> (d < 0) then - (\<bar>p\<bar> div \<bar>d\<bar>) else \<bar>p\<bar> div \<bar>d\<bar>)"
    if "d \<noteq> 0" and "\<bar>d\<bar> < 2 ^ 53" and "\<bar>p\<bar> < 2 ^ 53"
  proof -
    from py_truediv_small [OF that(3) that(1) that(2)]
    obtain x where "py_truediv p d = Inr x"
      and "int_of_float x = (if (p < 0) \<noteq> (d < 0) then - (\<bar>p\<bar> div \<bar>d\<bar>) else \<bar>p\<bar> div \<bar>d\<bar>)"
      by blast
    with assms that(1) show ?thesis by (simp add: progress_percentage_def)
  qed
  have zero: "d = 0 \<longrightarrow> progress_percentage data = Inr 0"
    using assms by (simp add: progress_percentage_def)
  have pos: "progress_percentage data = Inr (p div d)"
    if "0 < d \<and> d < 2 ^ 53 \<and> 0 \<le> p \<and> p < 2 ^ 53"
    using general [of] that by simp
  from zero pos general show ?thesis by blast
qed

theorem progress_percentage_value_witness:
  "progress_percentage (VDict [(''view_offset'', VInt 50), (''duration'', VStr ''200'')]) = Inr 0
   \<and> progress_percentage (VDict [(''view_offset'', VStr ''7000''), (''duration'', VInt 200)]) = Inr 35
   \<and> progress_percentage (VDict [(''view_offset'', VInt 50), (''duration'', VStr ''soon'')]) = Inr 0"
proof (intro conjI)
  have s200: "int_of_str ''200'' = Inr 200" and s7000: "int_of_str ''7000'' = Inr 7000"
    and soon: "int_of_str ''soon'' = Inl ValueError"
    by (simp_all add: int_of_str_def strip_def py_space_def digits_value_def is_digit_def)
  let ?a = "VDict [(''view_offset'', VInt 50), (''duration'', VStr ''200'')]"
  have "duration_milliseconds ?a = Inr 200" "location_milliseconds ?a = Inr 50"
    by (simp_all add: duration_milliseconds_def location_milliseconds_def s200)
  from progress_percentage_value [OF this] show "progress_percentage ?a = Inr 0" by simp
  let ?b = "VDict [(''view_offset'', VStr ''7000''), (''duration'', VInt 200)]"
  have "duration_milliseconds ?b = Inr 200" "location_milliseconds ?b = Inr 7000"
    by (simp_all add: duration_milliseconds_def location_milliseconds_def s7000)
  from progress_percentage_value [OF this] show "progress_percentage ?b = Inr 35" by simp
  let ?c = "VDict [(''view_offset'', VInt 50), (''duration'', VStr ''soon'')]"
  have "duration_milliseconds ?c = Inr 0" "location_milliseconds ?c = Inr 50"
    by (simp_all add: duration_milliseconds_def location_milliseconds_def soon)
  from progress_percentage_value [OF this] show "progress_percentage ?c = Inr 0" by simp
qed

theorem progress_percentage_floor_counterexample:
  "location_milliseconds (VDict [(''view_offset'', VInt (- 50)), (''duration'', VInt 200)]) = Inr (- 50)
   \<and> duration_milliseconds (VDict [(''view_offset'', VInt (- 50)), (''duration'', VInt 200)]) = Inr 200
   \<and> progress_percentage (VDict [(''view_offset'', VInt (- 50)), (''duration'', VInt 200)]) = Inr 0
   \<and> (- 50) div (200::int) = - 1"
  by (simp add: progress_percentage_def duration_milliseconds_def location_milliseconds_def
      py_truediv_def div_mantissa_def quotient_exponent_def bit_length.simps
      round_half_even_def Let_def)

section \<open>The WAN bandwidth of an activity\<close>

lemma wan_bandwidth_not_ints:
  assumes "py_get data ''total_bandwidth'' (VInt 0) = Inr t"
    and "py_get data ''lan_bandwidth'' (VInt 0) = Inr l"
    and "as_int t = None \<or> as_int l = None"
  shows "wan_bandwidth sx data = Inl TypeError"
  using assms by (auto simp: wan_bandwidth_def py_sub_def split: option.splits)

lemma wan_bandwidth_of_ints:
  assumes "py_get data ''total_bandwidth'' (VInt 0) = Inr (VInt t)"
    and "py_get data ''lan_bandwidth'' (VInt 0) = Inr (VInt l)"
  shows "wan_bandwidth sx data = Inr (bitrate sx (VInt (t - l)))"
  using assms by (simp add: wan_bandwidth_def py_sub_def)


end
